theory Spec2Isabelle
  imports Complex_Main
begin

section \<open>Climate indices of \<^verbatim>\<open>calculate_metrics.py\<close>\<close>

text \<open>
  The script works on pandas columns of Python floats, where a missing reading is NaN.
  A float is modelled as a \<^typ>\<open>real option\<close>: \<open>None\<close> is NaN (the missing value)
  and \<open>Some x\<close> an ordinary number, with exact real arithmetic in place of binary
  floating point.  Every comparison with NaN is false, \<open>dropna\<close> removes the \<open>None\<close>
  entries, and the pandas reductions \<open>sum\<close> and \<open>mean\<close> skip them.
\<close>

subsection \<open>Floats, comparisons and rounding\<close>

type_synonym pyfloat = "real option"

text \<open>The comparisons \<^verbatim>\<open>a > b\<close>, \<^verbatim>\<open>a >= b\<close> and \<^verbatim>\<open>a < b\<close> of two floats: false as soon
  as one side is NaN.\<close>

definition gt_f :: "pyfloat \<Rightarrow> pyfloat \<Rightarrow> bool" where
  "gt_f a b =
     (case a of None \<Rightarrow> False
      | Some x \<Rightarrow> (case b of None \<Rightarrow> False | Some y \<Rightarrow> y < x))"

definition ge_f :: "pyfloat \<Rightarrow> pyfloat \<Rightarrow> bool" where
  "ge_f a b =
     (case a of None \<Rightarrow> False
      | Some x \<Rightarrow> (case b of None \<Rightarrow> False | Some y \<Rightarrow> y \<le> x))"

definition lt_f :: "pyfloat \<Rightarrow> pyfloat \<Rightarrow> bool" where
  "lt_f a b =
     (case a of None \<Rightarrow> False
      | Some x \<Rightarrow> (case b of None \<Rightarrow> False | Some y \<Rightarrow> x < y))"

text \<open>
  \<^verbatim>\<open>round(x, ndigits)\<close> and the pandas \<^verbatim>\<open>.round(ndigits)\<close> round to the nearest
  multiple of \<open>10 ^ - ndigits\<close> and resolve a tie towards the even digit.
\<close>

definition round_half_even :: "real \<Rightarrow> int" where
  "round_half_even x =
     (let f = \<lfloor>x\<rfloor>; d = x - of_int f
      in if d < 1 / 2 then f else if 1 / 2 < d then f + 1 else if even f then f else f + 1)"

definition py_round :: "real \<Rightarrow> nat \<Rightarrow> real" where
  "py_round x ndigits = of_int (round_half_even (x * 10 ^ ndigits)) / 10 ^ ndigits"

subsection \<open>The daily table\<close>

text \<open>One row of the cleaned daily CSV, with the columns the indices read.  A
  DataFrame is the list of its rows in file order.\<close>

record daily_row =
  year :: int
  day_of_year :: int
  temp_max :: pyfloat
  temp_min :: pyfloat
  temp_mean :: pyfloat
  precipitation :: pyfloat

type_synonym dataframe = "daily_row list"

definition BASELINE_START :: int where "BASELINE_START = 1961"
definition BASELINE_END :: int where "BASELINE_END = 1990"
definition WSDI_MIN_DURATION :: int where "WSDI_MIN_DURATION = 6"
definition SU30_THRESHOLD :: real where "SU30_THRESHOLD = 30.0"
definition DRY_DAY_THRESHOLD :: real where "DRY_DAY_THRESHOLD = 1.0"
definition WET_DAY_THRESHOLD :: real where "WET_DAY_THRESHOLD = 1.0"

subsection \<open>Run-length helpers\<close>

text \<open>
  \<^verbatim>\<open>_max_consecutive(flags)\<close>: the loop keeps the current and the longest run; the
  early return for a series without any true flag gives 0 as well.
\<close>

fun max_consecutive_loop :: "bool list \<Rightarrow> nat \<Rightarrow> nat \<Rightarrow> nat" where
  "max_consecutive_loop [] max_run current = max_run"
| "max_consecutive_loop (v # arr) max_run current =
     (if v then max_consecutive_loop arr (max max_run (current + 1)) (current + 1)
      else max_consecutive_loop arr max_run 0)"

definition max_consecutive :: "bool list \<Rightarrow> nat" where
  "max_consecutive flags =
     (if \<not> list_ex (\<lambda>b. b) flags then 0 else max_consecutive_loop flags 0 0)"

text \<open>
  \<^verbatim>\<open>_count_days_in_spells(flags, min_duration)\<close>.  The inner loop
  \<^verbatim>\<open>while j < n and arr[j]: j += 1\<close> is \<open>scan_run\<close>; the outer loop carries the
  index \<open>i\<close> and the running total.  \<open>min_duration\<close> is a Python int and may be
  zero or negative.
\<close>

function scan_run :: "bool list \<Rightarrow> nat \<Rightarrow> nat" where
  "scan_run arr j = (if j < length arr \<and> arr ! j then scan_run arr (j + 1) else j)"
  by pat_completeness auto
termination
  by (relation "measure (\<lambda>(arr, j). length arr - j)") auto

declare scan_run.simps [simp del]

lemma scan_run_ge: "j \<le> scan_run arr j"
  by (induction arr j rule: scan_run.induct) (subst scan_run.simps, auto)

lemma scan_run_gt: "j < length arr \<Longrightarrow> arr ! j \<Longrightarrow> j < scan_run arr j"
  by (subst scan_run.simps) (use scan_run_ge [of "j + 1" arr] in auto)

lemma scan_run_le: "j \<le> length arr \<Longrightarrow> scan_run arr j \<le> length arr"
  by (induction arr j rule: scan_run.induct) (subst scan_run.simps, auto)

function count_days_loop :: "bool list \<Rightarrow> int \<Rightarrow> nat \<Rightarrow> nat \<Rightarrow> nat" where
  "count_days_loop arr min_duration i tot =
     (if i < length arr then
        (if arr ! i then
           (let j = scan_run arr i;
                run_len = j - i
            in count_days_loop arr min_duration j
                 (if int run_len \<ge> min_duration then tot + run_len else tot))
         else count_days_loop arr min_duration (i + 1) tot)
      else tot)"
  by pat_completeness auto
termination
proof (relation "measure (\<lambda>(arr, m, i, tot). length arr - i)", goal_cases)
  case 1
  show ?case by simp
next
  case (2 arr m i tot j run_len)
  then show ?case
    using scan_run_gt [of i arr] by simp
next
  case (3 arr m i tot)
  then show ?case by simp
qed

declare count_days_loop.simps [simp del]

definition count_days_in_spells :: "bool list \<Rightarrow> int \<Rightarrow> nat" where
  "count_days_in_spells flags min_duration = count_days_loop flags min_duration 0 0"

subsection \<open>The spell counter, run by run\<close>

text \<open>From index \<open>j\<close> the inner loop walks over true flags only and stops at the end
  of the array or in front of a false flag.\<close>

lemma scan_run_drop:
  "j \<le> length arr \<Longrightarrow>
   drop j arr = replicate (scan_run arr j - j) True @ drop (scan_run arr j) arr"
proof (induction arr j rule: scan_run.induct)
  case (1 arr j)
  show ?case
  proof (cases "j < length arr \<and> arr ! j")
    case True
    then have step: "scan_run arr j = scan_run arr (j + 1)"
      by (subst scan_run.simps) simp
    from True have "drop j arr = True # drop (j + 1) arr"
      by (metis Cons_nth_drop_Suc Suc_eq_plus1)
    moreover have "drop (j + 1) arr =
        replicate (scan_run arr (j + 1) - (j + 1)) True @ drop (scan_run arr (j + 1)) arr"
      using "1.IH" True by simp
    moreover have "Suc (scan_run arr (j + 1) - (j + 1)) = scan_run arr (j + 1) - j"
      using scan_run_ge [of "j + 1" arr] by simp
    ultimately show ?thesis
      unfolding step by (metis append_Cons replicate_Suc)
  next
    case False
    have "scan_run arr j = j"
      by (subst scan_run.simps) (use False in auto)
    then show ?thesis by simp
  qed
qed

lemma scan_run_stop:
  "scan_run arr j < length arr \<Longrightarrow> \<not> arr ! scan_run arr j"
proof (induction arr j rule: scan_run.induct)
  case (1 arr j)
  show ?case
  proof (cases "j < length arr \<and> arr ! j")
    case True
    then have "scan_run arr j = scan_run arr (j + 1)"
      by (subst scan_run.simps) simp
    with "1.IH" "1.prems" True show ?thesis by simp
  next
    case False
    have "scan_run arr j = j"
      by (subst scan_run.simps) (use False in auto)
    with "1.prems" False show ?thesis by auto
  qed
qed

lemma count_days_loop_all:
  "min_duration \<le> 1 \<Longrightarrow>
   count_days_loop arr min_duration i tot = tot + length (filter (\<lambda>b. b) (drop i arr))"
proof (induction arr min_duration i tot rule: count_days_loop.induct)
  case (1 arr m i tot)
  show ?case
  proof (cases "i < length arr")
    case False
    then show ?thesis by (subst count_days_loop.simps) simp
  next
    case inb: True
    show ?thesis
    proof (cases "arr ! i")
      case True
      define j where "j = scan_run arr i"
      have gt: "i < j" unfolding j_def using scan_run_gt inb True by simp
      have d: "drop i arr = replicate (j - i) True @ drop j arr"
        unfolding j_def using scan_run_drop [of i arr] inb by simp
      have "count_days_loop arr m i tot = count_days_loop arr m j (tot + (j - i))"
        using inb True gt "1.prems" by (subst count_days_loop.simps) (simp add: j_def Let_def)
      also have "\<dots> = tot + (j - i) + length (filter (\<lambda>b. b) (drop j arr))"
        using "1.IH"(1) [OF inb True j_def refl] "1.prems" gt by simp
      finally show ?thesis by (simp add: d)
    next
      case False
      have d: "drop i arr = False # drop (i + 1) arr"
        using inb False by (metis Cons_nth_drop_Suc Suc_eq_plus1)
      have "count_days_loop arr m i tot = count_days_loop arr m (i + 1) tot"
        using inb False by (subst count_days_loop.simps) simp
      then show ?thesis
        using "1.IH"(2) [OF inb False] "1.prems" by (simp add: d)
    qed
  qed
qed

text \<open>
  Claim C9.  For every finite boolean sequence, the spell counter
  \<^verbatim>\<open>_count_days_in_spells\<close> with \<open>min_duration = 1\<close> returns the number of true
  values of the sequence.
\<close>

theorem count_days_in_spells_min1:
  "count_days_in_spells flags 1 = length (filter (\<lambda>b. b) flags)"
  unfolding count_days_in_spells_def
  by (simp add: count_days_loop_all)

subsection \<open>Dry and wet days\<close>

text \<open>\<^verbatim>\<open>calculate_cdd\<close> flags \<^verbatim>\<open>precip_series < DRY_DAY_THRESHOLD\<close>, \<^verbatim>\<open>calculate_cwd\<close>
  flags \<^verbatim>\<open>precip_series >= WET_DAY_THRESHOLD\<close>; both return the longest run of their
  flags.\<close>

definition dry_flags :: "pyfloat list \<Rightarrow> bool list" where
  "dry_flags precip_series = map (\<lambda>p. lt_f p (Some DRY_DAY_THRESHOLD)) precip_series"

definition wet_flags :: "pyfloat list \<Rightarrow> bool list" where
  "wet_flags precip_series = map (\<lambda>p. ge_f p (Some WET_DAY_THRESHOLD)) precip_series"

definition calculate_cdd :: "pyfloat list \<Rightarrow> nat" where
  "calculate_cdd precip_series = max_consecutive (dry_flags precip_series)"

definition calculate_cwd :: "pyfloat list \<Rightarrow> nat" where
  "calculate_cwd precip_series = max_consecutive (wet_flags precip_series)"

text \<open>The boundary cases of \<^verbatim>\<open>test_cwd_cdd_edge.py\<close>, and a year with a gap.\<close>

lemma cdd_cwd_at_threshold:
  "calculate_cdd [Some 0, Some 1, Some 0] = 1 \<and> calculate_cwd [Some 1, Some 1, Some 1] = 3
   \<and> calculate_cdd [Some 0, None, Some 0] = 1 \<and> calculate_cwd [Some 0, None, Some 0] = 0"
  by (simp add: calculate_cdd_def calculate_cwd_def dry_flags_def wet_flags_def lt_f_def
      ge_f_def max_consecutive_def DRY_DAY_THRESHOLD_def WET_DAY_THRESHOLD_def)

text \<open>
  Claim C5, as stated: in every precipitation series every day is exactly one of dry
  or wet.  A day without a reading is neither: both comparisons with NaN are false.
\<close>

theorem dry_wet_missing_day_counterexample:
  "\<not> (\<forall>precip_series. \<forall>i < length precip_series.
        dry_flags precip_series ! i \<noteq> wet_flags precip_series ! i)"
proof
  assume "\<forall>precip_series. \<forall>i < length precip_series.
        dry_flags precip_series ! i \<noteq> wet_flags precip_series ! i"
  then have "dry_flags [None] ! 0 \<noteq> wet_flags [None] ! 0"
    by (metis length_Cons less_Suc_eq_0_disj)
  then show False
    by (simp add: dry_flags_def wet_flags_def lt_f_def ge_f_def)
qed

text \<open>
  Claim C5, amended.  On every day that has a precipitation reading the dry flag
  (below 1.0 mm) and the wet flag (at or above 1.0 mm) are complementary, so the day is
  exactly one of dry or wet; a reading of exactly 1.0 mm is wet and not dry; a day
  without a reading is neither dry nor wet.
\<close>

theorem dry_wet_partition:
  assumes "i < length precip_series"
  shows "(precip_series ! i \<noteq> None \<longrightarrow>
            dry_flags precip_series ! i = (\<not> wet_flags precip_series ! i))
       \<and> (precip_series ! i = Some 1 \<longrightarrow>
            wet_flags precip_series ! i \<and> \<not> dry_flags precip_series ! i)
       \<and> (precip_series ! i = None \<longrightarrow>
            \<not> wet_flags precip_series ! i \<and> \<not> dry_flags precip_series ! i)"
  using assms
  by (auto simp: dry_flags_def wet_flags_def lt_f_def ge_f_def
      DRY_DAY_THRESHOLD_def WET_DAY_THRESHOLD_def)

theorem dry_wet_partition_witness:
  "dry_flags [Some 0, Some 1, None] ! 0 = (\<not> wet_flags [Some 0, Some 1, None] ! 0)
   \<and> wet_flags [Some 0, Some 1, None] ! 1 \<and> \<not> dry_flags [Some 0, Some 1, None] ! 1
   \<and> \<not> wet_flags [Some 0, Some 1, None] ! 2 \<and> \<not> dry_flags [Some 0, Some 1, None] ! 2"
  using dry_wet_partition [of 0 "[Some 0, Some 1, None]"]
    dry_wet_partition [of 1 "[Some 0, Some 1, None]"]
    dry_wet_partition [of 2 "[Some 0, Some 1, None]"]
  by simp

subsection \<open>The hot season\<close>

text \<open>The seasonal block of the per-year loop of \<^verbatim>\<open>main\<close>: the rows with
  \<^verbatim>\<open>temp_max >= SU30_THRESHOLD\<close>, the smallest and the largest day of year among them,
  and their difference.\<close>

record season =
  first_hot_day :: "int option"
  last_hot_day :: "int option"
  hot_season_length :: int

definition hot_days_of :: "dataframe \<Rightarrow> dataframe" where
  "hot_days_of ydf = filter (\<lambda>r. ge_f (temp_max r) (Some SU30_THRESHOLD)) ydf"

definition hot_season :: "dataframe \<Rightarrow> season" where
  "hot_season ydf =
     (let hot_days = hot_days_of ydf in
      if length hot_days > 0 then
        (let first = Min (set (map day_of_year hot_days));
             last = Max (set (map day_of_year hot_days))
         in \<lparr>first_hot_day = Some first, last_hot_day = Some last,
             hot_season_length = last - first\<rparr>)
      else \<lparr>first_hot_day = None, last_hot_day = None, hot_season_length = 0\<rparr>)"

text \<open>
  Claim C10.  In a year with at least one day at or above 30 degrees the reported
  \<open>hot_season_length\<close> is \<open>last_hot_day - first_hot_day\<close>, the largest minus the
  smallest day of year of the hot days, with no \<open>+ 1\<close>; a year with exactly one hot day
  therefore reports 0, and so does a year without any hot day, where the first and the
  last hot day are undefined as well.
\<close>

theorem hot_season_length_is_difference:
  "(hot_days_of ydf \<noteq> [] \<longrightarrow>
      first_hot_day (hot_season ydf) = Some (Min (day_of_year ` set (hot_days_of ydf)))
    \<and> last_hot_day (hot_season ydf) = Some (Max (day_of_year ` set (hot_days_of ydf)))
    \<and> hot_season_length (hot_season ydf) =
        the (last_hot_day (hot_season ydf)) - the (first_hot_day (hot_season ydf)))
   \<and> (length (hot_days_of ydf) = 1 \<longrightarrow> hot_season_length (hot_season ydf) = 0)
   \<and> (hot_days_of ydf = [] \<longrightarrow>
        first_hot_day (hot_season ydf) = None \<and> last_hot_day (hot_season ydf) = None
      \<and> hot_season_length (hot_season ydf) = 0)"
proof (intro conjI impI)
  assume one: "length (hot_days_of ydf) = 1"
  then obtain r where "hot_days_of ydf = [r]"
    by (cases "hot_days_of ydf") auto
  then show "hot_season_length (hot_season ydf) = 0"
    by (simp add: hot_season_def Let_def)
qed (simp_all add: hot_season_def Let_def)

theorem hot_season_length_is_difference_witness:
  "hot_season_length (hot_season
      [\<lparr>year = 2000, day_of_year = 5, temp_max = Some 31, temp_min = None,
         temp_mean = None, precipitation = None\<rparr>,
       \<lparr>year = 2000, day_of_year = 40, temp_max = Some 30, temp_min = None,
         temp_mean = None, precipitation = None\<rparr>,
       \<lparr>year = 2000, day_of_year = 41, temp_max = Some 29, temp_min = None,
         temp_mean = None, precipitation = None\<rparr>]) = 35
   \<and> hot_season_length (hot_season
      [\<lparr>year = 2000, day_of_year = 5, temp_max = Some 31, temp_min = None,
         temp_mean = None, precipitation = None\<rparr>]) = 0
   \<and> first_hot_day (hot_season
      [\<lparr>year = 2000, day_of_year = 5, temp_max = Some 29, temp_min = None,
         temp_mean = None, precipitation = None\<rparr>]) = None"
  using hot_season_length_is_difference
      [of "[\<lparr>year = 2000, day_of_year = 5, temp_max = Some 31, temp_min = None,
         temp_mean = None, precipitation = None\<rparr>,
       \<lparr>year = 2000, day_of_year = 40, temp_max = Some 30, temp_min = None,
         temp_mean = None, precipitation = None\<rparr>,
       \<lparr>year = 2000, day_of_year = 41, temp_max = Some 29, temp_min = None,
         temp_mean = None, precipitation = None\<rparr>]"]
    hot_season_length_is_difference
      [of "[\<lparr>year = 2000, day_of_year = 5, temp_max = Some 31, temp_min = None,
         temp_mean = None, precipitation = None\<rparr>]"]
    hot_season_length_is_difference
      [of "[\<lparr>year = 2000, day_of_year = 5, temp_max = Some 29, temp_min = None,
         temp_mean = None, precipitation = None\<rparr>]"]
  by (simp add: hot_days_of_def ge_f_def SU30_THRESHOLD_def)

subsection \<open>Calendar-day percentile baselines\<close>

datatype error = ValueError

datatype column = TempMax | TempMin | TempMean | Precipitation

fun column_value :: "column \<Rightarrow> daily_row \<Rightarrow> pyfloat" where
  "column_value TempMax r = temp_max r"
| "column_value TempMin r = temp_min r"
| "column_value TempMean r = temp_mean r"
| "column_value Precipitation r = precipitation r"

text \<open>
  \<^verbatim>\<open>np.percentile(a, q)\<close> with numpy's default (linear) method: the sorted sample is
  read at the virtual index \<open>(n - 1) * q / 100\<close>, interpolating between the two
  neighbouring order statistics.  numpy raises \<^verbatim>\<open>ValueError\<close> for \<open>q\<close> outside
  \<open>[0, 100]\<close> and returns NaN for a sample that is empty or holds a NaN.
\<close>

definition linear_percentile :: "real list \<Rightarrow> real \<Rightarrow> real" where
  "linear_percentile a q =
     (let arr = sort a;
          n = length arr;
          virtual_index = real (n - 1) * (q / 100);
          previous = nat \<lfloor>virtual_index\<rfloor>;
          following = min (previous + 1) (n - 1);
          gamma = virtual_index - real previous
      in arr ! previous + gamma * (arr ! following - arr ! previous))"

definition np_percentile :: "pyfloat list \<Rightarrow> real \<Rightarrow> error + pyfloat" where
  "np_percentile a q =
     (if q < 0 \<or> 100 < q then Inl ValueError
      else if a = [] \<or> list_ex (\<lambda>v. v = None) a then Inr None
      else Inr (Some (linear_percentile (map the a) q)))"

text \<open>
  \<^verbatim>\<open>build_calendar_day_percentile(df, column, baseline_start, baseline_end, percentile)\<close>.
  \<open>baseline_rows\<close> is the frame after the year filter and \<^verbatim>\<open>dropna(subset=[column])\<close>;
  \<open>day_percentile\<close> is the body of the loop over \<^verbatim>\<open>range(1, 367)\<close>, and
  \<open>percentile_loop\<close> the loop itself, filling the dictionary \<^verbatim>\<open>p_by_doy\<close> and
  stopping at the first exception.  \<open>range(2 * window + 1)\<close> is the list \<open>[0..2 * window]\<close>.
\<close>

definition window :: int where "window = 2"

definition doys_in_window :: "int \<Rightarrow> int list" where
  "doys_in_window doy = map (\<lambda>k. (doy - window + k - 1) mod 366 + 1) [0..2 * window]"

definition baseline_rows :: "dataframe \<Rightarrow> column \<Rightarrow> int \<Rightarrow> int \<Rightarrow> dataframe" where
  "baseline_rows df col baseline_start baseline_end =
     filter (\<lambda>r. column_value col r \<noteq> None)
       (filter (\<lambda>r. baseline_start \<le> year r \<and> year r \<le> baseline_end) df)"

definition day_percentile :: "dataframe \<Rightarrow> column \<Rightarrow> real \<Rightarrow> int \<Rightarrow> error + pyfloat" where
  "day_percentile baseline col percentile doy =
     (let pool = map (column_value col)
                   (filter (\<lambda>r. day_of_year r \<in> set (doys_in_window doy)) baseline)
      in if length pool \<ge> 10 then np_percentile pool percentile
         else (let pool_exact = map (column_value col)
                                  (filter (\<lambda>r. day_of_year r = doy) baseline)
               in if length pool_exact > 0 then np_percentile pool_exact percentile
                  else Inr None))"

fun percentile_loop ::
  "dataframe \<Rightarrow> column \<Rightarrow> real \<Rightarrow> int list \<Rightarrow> (int \<rightharpoonup> pyfloat)
     \<Rightarrow> error + (int \<rightharpoonup> pyfloat)" where
  "percentile_loop baseline col percentile [] p_by_doy = Inr p_by_doy"
| "percentile_loop baseline col percentile (doy # rest) p_by_doy =
     (case day_percentile baseline col percentile doy of
        Inl e \<Rightarrow> Inl e
      | Inr v \<Rightarrow> percentile_loop baseline col percentile rest (p_by_doy(doy \<mapsto> v)))"

definition build_calendar_day_percentile ::
  "dataframe \<Rightarrow> column \<Rightarrow> int \<Rightarrow> int \<Rightarrow> real \<Rightarrow> error + (int \<rightharpoonup> pyfloat)" where
  "build_calendar_day_percentile df col baseline_start baseline_end percentile =
     percentile_loop (baseline_rows df col baseline_start baseline_end) col percentile
       [1..366] Map.empty"

text \<open>\<^verbatim>\<open>p90.get(k, np.nan)\<close> on the resulting Series: the stored value, NaN for a key
  that is not in the index.\<close>

definition series_get :: "(int \<rightharpoonup> pyfloat) \<Rightarrow> int \<Rightarrow> pyfloat" where
  "series_get s k = (case s k of None \<Rightarrow> None | Some v \<Rightarrow> v)"

subsection \<open>The window on the circle of 366 days\<close>

text \<open>The distance of two days of year on the circle that joins day 366 to day 1.\<close>

definition circular_distance :: "int \<Rightarrow> int \<Rightarrow> int" where
  "circular_distance d e = min ((d - e) mod 366) ((e - d) mod 366)"

lemma mod_366_cases:
  fixes t :: int
  assumes "- 366 \<le> t" "t < 732"
  shows "t mod 366 = (if t < 0 then t + 366 else if t < 366 then t else t - 366)"
proof -
  consider "t < 0" | "0 \<le> t" "t < 366" | "366 \<le> t" by linarith
  then show ?thesis
  proof cases
    case 1
    have "(t + 366) mod 366 = t + 366"
      by (rule mod_pos_pos_trivial) (use 1 assms in auto)
    then show ?thesis using 1 by simp
  next
    case 2
    then show ?thesis by simp
  next
    case 3
    have "(t - 366) mod 366 = t - 366"
      by (rule mod_pos_pos_trivial) (use 3 assms in auto)
    then show ?thesis using 3 by simp
  qed
qed

lemma window_circular:
  assumes "1 \<le> d" "d \<le> 366" "1 \<le> e" "e \<le> 366"
  shows "e \<in> set (doys_in_window d) \<longleftrightarrow> circular_distance d e \<le> 2"
proof -
  have u: "[0..2 * window] = [0, 1, 2, 3, 4]"
    by (simp add: window_def upto.simps)
  have m: "(d - e) mod 366 = (if d - e < 0 then d - e + 366 else d - e)"
    "(e - d) mod 366 = (if e - d < 0 then e - d + 366 else e - d)"
    "(d - 3) mod 366 = (if d - 3 < 0 then d - 3 + 366 else d - 3)"
    "(d - 2) mod 366 = (if d - 2 < 0 then d - 2 + 366 else d - 2)"
    "(d - 1) mod 366 = d - 1"
    "d mod 366 = (if d < 366 then d else d - 366)"
    "(d + 1) mod 366 = (if d + 1 < 366 then d + 1 else d + 1 - 366)"
    using assms by (simp_all add: mod_366_cases)
  have w: "set (doys_in_window d) =
    {(d - 3) mod 366 + 1, (d - 2) mod 366 + 1, (d - 1) mod 366 + 1, d mod 366 + 1,
     (d + 1) mod 366 + 1}"
    unfolding doys_in_window_def u by (simp add: window_def add.commute)
  show ?thesis
    unfolding w circular_distance_def m
    using assms by (auto simp: min_def split: if_splits)
qed

lemma doys_in_window_range: "e \<in> set (doys_in_window d) \<Longrightarrow> 1 \<le> e \<and> e \<le> 366"
  by (auto simp: doys_in_window_def)

lemma percentile_loop_ok:
  assumes "\<forall>d \<in> set ds. day_percentile b c q d = Inr (f d)"
  shows "percentile_loop b c q ds acc =
           Inr (\<lambda>d. if d \<in> set ds then Some (f d) else acc d)"
  using assms
proof (induction ds arbitrary: acc)
  case Nil
  then show ?case by simp
next
  case (Cons d ds)
  then show ?case by (auto simp: fun_eq_iff)
qed

text \<open>
  The pools as the specification words them: the observations of the column that are
  not missing, from years inside the baseline range, whose day of year is at most two
  days away from \<open>d\<close> on the circle (\<open>window_pool\<close>) or is \<open>d\<close> itself
  (\<open>exact_pool\<close>); and the threshold read from them.
\<close>

definition in_circular_window :: "int \<Rightarrow> int \<Rightarrow> bool" where
  "in_circular_window d e \<longleftrightarrow> 1 \<le> e \<and> e \<le> 366 \<and> circular_distance d e \<le> 2"

definition window_pool :: "dataframe \<Rightarrow> column \<Rightarrow> int \<Rightarrow> int \<Rightarrow> int \<Rightarrow> real list" where
  "window_pool df col baseline_start baseline_end d =
     map (\<lambda>r. the (column_value col r))
       (filter (\<lambda>r. baseline_start \<le> year r \<and> year r \<le> baseline_end
                   \<and> column_value col r \<noteq> None
                   \<and> in_circular_window d (day_of_year r)) df)"

definition exact_pool :: "dataframe \<Rightarrow> column \<Rightarrow> int \<Rightarrow> int \<Rightarrow> int \<Rightarrow> real list" where
  "exact_pool df col baseline_start baseline_end d =
     map (\<lambda>r. the (column_value col r))
       (filter (\<lambda>r. baseline_start \<le> year r \<and> year r \<le> baseline_end
                   \<and> column_value col r \<noteq> None
                   \<and> day_of_year r = d) df)"

definition pooled_threshold ::
  "dataframe \<Rightarrow> column \<Rightarrow> int \<Rightarrow> int \<Rightarrow> real \<Rightarrow> int \<Rightarrow> pyfloat" where
  "pooled_threshold df col baseline_start baseline_end q d =
     (if 10 \<le> length (window_pool df col baseline_start baseline_end d)
      then Some (linear_percentile (window_pool df col baseline_start baseline_end d) q)
      else if exact_pool df col baseline_start baseline_end d \<noteq> []
      then Some (linear_percentile (exact_pool df col baseline_start baseline_end d) q)
      else None)"

lemma np_percentile_defined:
  assumes "0 \<le> q" "q \<le> 100" "rows \<noteq> []" "\<forall>r \<in> set rows. column_value col r \<noteq> None"
  shows "np_percentile (map (column_value col) rows) q =
         Inr (Some (linear_percentile (map (\<lambda>r. the (column_value col r)) rows) q))"
  using assms by (auto simp: np_percentile_def list_ex_iff comp_def)

lemma in_window_iff:
  assumes "1 \<le> d" "d \<le> 366"
  shows "e \<in> set (doys_in_window d) \<longleftrightarrow> in_circular_window d e"
  using assms window_circular [of d e] doys_in_window_range [of e d]
  unfolding in_circular_window_def by blast

lemma window_pool_code:
  assumes "1 \<le> d" "d \<le> 366"
  shows "map (\<lambda>r. the (column_value col r))
           (filter (\<lambda>r. day_of_year r \<in> set (doys_in_window d)) (baseline_rows df col bs be))
         = window_pool df col bs be d"
  unfolding window_pool_def baseline_rows_def filter_filter in_window_iff [OF assms]
  by (rule arg_cong [where f = "map _"], rule filter_cong) auto

lemma exact_pool_code:
  "map (\<lambda>r. the (column_value col r))
           (filter (\<lambda>r. day_of_year r = d) (baseline_rows df col bs be))
         = exact_pool df col bs be d"
  unfolding exact_pool_def baseline_rows_def filter_filter
  by (rule arg_cong [where f = "map _"], rule filter_cong) auto

lemma baseline_rows_not_None:
  "r \<in> set (baseline_rows df col bs be) \<Longrightarrow> column_value col r \<noteq> None"
  by (simp add: baseline_rows_def)

text \<open>What one pass of the loop body stores when nothing is raised.\<close>

definition code_threshold :: "dataframe \<Rightarrow> column \<Rightarrow> real \<Rightarrow> int \<Rightarrow> pyfloat" where
  "code_threshold b col q d =
     (let rows = filter (\<lambda>r. day_of_year r \<in> set (doys_in_window d)) b;
          rows_exact = filter (\<lambda>r. day_of_year r = d) b
      in if 10 \<le> length rows
         then Some (linear_percentile (map (\<lambda>r. the (column_value col r)) rows) q)
         else if rows_exact \<noteq> []
         then Some (linear_percentile (map (\<lambda>r. the (column_value col r)) rows_exact) q)
         else None)"

lemma day_percentile_code:
  assumes "0 \<le> q" "q \<le> 100" "\<forall>r \<in> set b. column_value col r \<noteq> None"
  shows "day_percentile b col q d = Inr (code_threshold b col q d)"
proof -
  let ?rows = "filter (\<lambda>r. day_of_year r \<in> set (doys_in_window d)) b"
  let ?exact = "filter (\<lambda>r. day_of_year r = d) b"
  have nn: "\<forall>r \<in> set ?rows. column_value col r \<noteq> None"
    "\<forall>r \<in> set ?exact. column_value col r \<noteq> None"
    using assms(3) by auto
  show ?thesis
  proof (cases "10 \<le> length ?rows")
    case True
    then have "?rows \<noteq> []" by auto
    from np_percentile_defined [OF assms(1,2) this nn(1)] True
    show ?thesis by (simp add: day_percentile_def code_threshold_def)
  next
    case False
    show ?thesis
    proof (cases "?exact = []")
      case True
      with False show ?thesis by (simp add: day_percentile_def code_threshold_def)
    next
      case ne: False
      from np_percentile_defined [OF assms(1,2) ne nn(2)] False ne
      show ?thesis by (simp add: day_percentile_def code_threshold_def)
    qed
  qed
qed

lemma code_threshold_pooled:
  assumes "1 \<le> d" "d \<le> 366"
  shows "code_threshold (baseline_rows df col bs be) col q d = pooled_threshold df col bs be q d"
proof -
  have l: "length (filter (\<lambda>r. day_of_year r \<in> set (doys_in_window d)) (baseline_rows df col bs be))
      = length (window_pool df col bs be d)"
    using window_pool_code [OF assms, of col df bs be, symmetric] by simp
  have e: "filter (\<lambda>r. day_of_year r = d) (baseline_rows df col bs be) = [] \<longleftrightarrow>
      exact_pool df col bs be d = []"
    using exact_pool_code [of col d df bs be, symmetric] by simp
  show ?thesis
    unfolding code_threshold_def pooled_threshold_def Let_def l e
    by (simp add: window_pool_code [OF assms] exact_pool_code)
qed

text \<open>
  Claim C3.  For every day of year \<open>d\<close> from 1 to 366 and every percentile \<open>q\<close> in
  \<open>[0, 100]\<close>, \<^verbatim>\<open>build_calendar_day_percentile\<close> returns a table whose entry for \<open>d\<close>
  is the percentile of the non-missing baseline observations within two days of \<open>d\<close>
  on the circle when there are at least 10 of them, otherwise the percentile of the
  observations of day \<open>d\<close> itself, and NaN when there is none; when no row lies in
  the baseline range the entry is NaN, for every \<open>q\<close>, and nothing is raised.
\<close>

theorem calendar_threshold_by_pooling:
  assumes "1 \<le> d" "d \<le> 366"
  shows "(0 \<le> q \<and> q \<le> 100 \<longrightarrow>
           (\<exists>p. build_calendar_day_percentile df col bs be q = Inr p
              \<and> p d = Some (pooled_threshold df col bs be q d)))
       \<and> ((\<forall>r \<in> set df. \<not> (bs \<le> year r \<and> year r \<le> be)) \<longrightarrow>
           (\<exists>p. build_calendar_day_percentile df col bs be q = Inr p \<and> p d = Some None))"
proof (intro conjI impI)
  have d: "d \<in> set [1..366]" using assms by simp
  {
    assume q: "0 \<le> q \<and> q \<le> 100"
    let ?b = "baseline_rows df col bs be"
    have "\<forall>d' \<in> set [1..366]. day_percentile ?b col q d' = Inr (code_threshold ?b col q d')"
      using day_percentile_code [of q ?b col] q baseline_rows_not_None by blast
    from percentile_loop_ok [OF this, of Map.empty]
    have "build_calendar_day_percentile df col bs be q =
        Inr (\<lambda>d'. if d' \<in> set [1..366] then Some (code_threshold ?b col q d') else None)"
      by (simp add: build_calendar_day_percentile_def)
    then show "\<exists>p. build_calendar_day_percentile df col bs be q = Inr p
              \<and> p d = Some (pooled_threshold df col bs be q d)"
      using d code_threshold_pooled [OF assms] by simp
  }
  {
    assume "\<forall>r \<in> set df. \<not> (bs \<le> year r \<and> year r \<le> be)"
    then have b: "baseline_rows df col bs be = []"
      by (simp add: baseline_rows_def)
    have "\<forall>d' \<in> set [1..366]. day_percentile [] col q d' = Inr ((\<lambda>_. None) d')"
      by (simp add: day_percentile_def)
    from percentile_loop_ok [OF this, of Map.empty]
    show "\<exists>p. build_calendar_day_percentile df col bs be q = Inr p \<and> p d = Some None"
      using d by (simp add: build_calendar_day_percentile_def b)
  }
qed

theorem calendar_threshold_by_pooling_witness:
  "(\<exists>p. build_calendar_day_percentile
       [\<lparr>year = 1961, day_of_year = 1, temp_max = Some 20, temp_min = None,
          temp_mean = None, precipitation = None\<rparr>,
        \<lparr>year = 1962, day_of_year = 1, temp_max = Some 30, temp_min = None,
          temp_mean = None, precipitation = None\<rparr>,
        \<lparr>year = 1950, day_of_year = 1, temp_max = Some 50, temp_min = None,
          temp_mean = None, precipitation = None\<rparr>,
        \<lparr>year = 1963, day_of_year = 366, temp_max = None, temp_min = None,
          temp_mean = None, precipitation = None\<rparr>] TempMax 1961 1990 90 = Inr p
      \<and> p 1 = Some (Some 29) \<and> p 2 = Some None)
   \<and> (\<exists>p. build_calendar_day_percentile
       [\<lparr>year = 1950, day_of_year = 1, temp_max = Some 50, temp_min = None,
          temp_mean = None, precipitation = None\<rparr>] TempMax 1961 1990 90 = Inr p
      \<and> p 1 = Some None)
   \<and> (\<exists>p. build_calendar_day_percentile
       (map (\<lambda>(y, d, t). \<lparr>year = y, day_of_year = d, temp_max = Some t, temp_min = None,
          temp_mean = None, precipitation = None\<rparr>)
         [(1961, 365, 1), (1961, 366, 2), (1961, 1, 3), (1961, 2, 4), (1961, 3, 5),
          (1962, 365, 6), (1962, 366, 7), (1962, 1, 8), (1962, 2, 9), (1962, 3, 10),
          (2020, 1, 50)]) TempMax 1961 1990 90 = Inr p
      \<and> p 1 = Some (Some (91 / 10)))"
proof -
  let ?df = "[\<lparr>year = 1961, day_of_year = 1, temp_max = Some 20, temp_min = None,
          temp_mean = None, precipitation = None\<rparr>,
        \<lparr>year = 1962, day_of_year = 1, temp_max = Some 30, temp_min = None,
          temp_mean = None, precipitation = None\<rparr>,
        \<lparr>year = 1950, day_of_year = 1, temp_max = Some 50, temp_min = None,
          temp_mean = None, precipitation = None\<rparr>,
        \<lparr>year = 1963, day_of_year = 366, temp_max = None, temp_min = None,
          temp_mean = None, precipitation = None\<rparr>]"
  have w1: "window_pool ?df TempMax 1961 1990 1 = [20, 30]"
    by (simp add: window_pool_def in_circular_window_def circular_distance_def)
  have x1: "exact_pool ?df TempMax 1961 1990 1 = [20, 30]"
    by (simp add: exact_pool_def)
  have w2: "window_pool ?df TempMax 1961 1990 2 = [20, 30]"
    by (simp add: window_pool_def in_circular_window_def circular_distance_def)
  have x2: "exact_pool ?df TempMax 1961 1990 2 = []"
    by (simp add: exact_pool_def)
  have t1: "pooled_threshold ?df TempMax 1961 1990 90 1 = Some 29"
    unfolding pooled_threshold_def w1 x1 by (simp add: linear_percentile_def)
  have t2: "pooled_threshold ?df TempMax 1961 1990 90 2 = None"
    unfolding pooled_threshold_def w2 x2 by simp
  from calendar_threshold_by_pooling [of 1 90 ?df TempMax 1961 1990]
    calendar_threshold_by_pooling [of 2 90 ?df TempMax 1961 1990]
  have "\<exists>p. build_calendar_day_percentile ?df TempMax 1961 1990 90 = Inr p
      \<and> p 1 = Some (Some 29) \<and> p 2 = Some None"
    unfolding t1 t2 by auto
  moreover from calendar_threshold_by_pooling [of 1 90
      "[\<lparr>year = 1950, day_of_year = 1, temp_max = Some 50, temp_min = None,
          temp_mean = None, precipitation = None\<rparr>]" TempMax 1961 1990]
  have "\<exists>p. build_calendar_day_percentile
       [\<lparr>year = 1950, day_of_year = 1, temp_max = Some 50, temp_min = None,
          temp_mean = None, precipitation = None\<rparr>] TempMax 1961 1990 90 = Inr p
      \<and> p 1 = Some None"
    by simp
  moreover have "\<exists>p. build_calendar_day_percentile
       (map (\<lambda>(y, d, t). \<lparr>year = y, day_of_year = d, temp_max = Some t, temp_min = None,
          temp_mean = None, precipitation = None\<rparr>)
         [(1961, 365, 1), (1961, 366, 2), (1961, 1, 3), (1961, 2, 4), (1961, 3, 5),
          (1962, 365, 6), (1962, 366, 7), (1962, 1, 8), (1962, 2, 9), (1962, 3, 10),
          (2020, 1, 50)]) TempMax 1961 1990 90 = Inr p
      \<and> p 1 = Some (Some (91 / 10))"
  proof -
    let ?df10 = "map (\<lambda>(y, d, t). \<lparr>year = y, day_of_year = d, temp_max = Some t, temp_min = None,
          temp_mean = None, precipitation = None\<rparr>)
         [(1961, 365, 1), (1961, 366, 2), (1961, 1, 3), (1961, 2, 4), (1961, 3, 5),
          (1962, 365, 6), (1962, 366, 7), (1962, 1, 8), (1962, 2, 9), (1962, 3, 10),
          (2020, 1, 50::real)]"
    have w: "window_pool ?df10 TempMax 1961 1990 1 = [1, 2, 3, 4, 5, 6, 7, 8, 9, 10]"
      by (simp add: window_pool_def in_circular_window_def circular_distance_def)
    have t: "pooled_threshold ?df10 TempMax 1961 1990 90 1 = Some (91 / 10)"
      unfolding pooled_threshold_def w by (simp add: linear_percentile_def)
    from calendar_threshold_by_pooling [of 1 90 ?df10 TempMax 1961 1990]
    show ?thesis unfolding t by simp
  qed
  ultimately show ?thesis by blast
qed

text \<open>
  Claim C2.  Two datasets with the same rows inside the baseline range get the same
  table of thresholds from \<^verbatim>\<open>build_calendar_day_percentile\<close>, whatever the rows
  outside that range hold.
\<close>

theorem baseline_ignores_other_years:
  assumes "filter (\<lambda>r. baseline_start \<le> year r \<and> year r \<le> baseline_end) df1 =
           filter (\<lambda>r. baseline_start \<le> year r \<and> year r \<le> baseline_end) df2"
  shows "build_calendar_day_percentile df1 col baseline_start baseline_end percentile =
         build_calendar_day_percentile df2 col baseline_start baseline_end percentile"
  using assms by (simp add: build_calendar_day_percentile_def baseline_rows_def)

theorem baseline_ignores_other_years_witness:
  "build_calendar_day_percentile
     [\<lparr>year = 1950, day_of_year = 1, temp_max = Some 50, temp_min = Some 40,
        temp_mean = Some 45, precipitation = Some 0\<rparr>,
      \<lparr>year = 1961, day_of_year = 1, temp_max = Some 25, temp_min = Some 15,
        temp_mean = Some 20, precipitation = Some 0\<rparr>] TempMax 1961 1990 90 =
   build_calendar_day_percentile
     [\<lparr>year = 1961, day_of_year = 1, temp_max = Some 25, temp_min = Some 15,
        temp_mean = Some 20, precipitation = Some 0\<rparr>,
      \<lparr>year = 2024, day_of_year = 1, temp_max = Some (- 80), temp_min = Some (- 90),
        temp_mean = Some (- 85), precipitation = Some 1000\<rparr>] TempMax 1961 1990 90"
  by (rule baseline_ignores_other_years) simp

subsection \<open>Days in qualifying runs\<close>

text \<open>
  The run encoder as the specification words it.  A maximal run of a flag sequence is
  a stretch \<open>[i, j)\<close> of true flags that cannot be extended to the left or to the
  right; a day belongs to a qualifying run when the maximal run around it has at least
  \<open>min_length\<close> days; \<open>days_in_qualifying_runs\<close> counts these days.
\<close>

definition maximal_run :: "bool list \<Rightarrow> nat \<Rightarrow> nat \<Rightarrow> bool" where
  "maximal_run flags i j \<longleftrightarrow>
     i < j \<and> j \<le> length flags \<and> (\<forall>k \<in> {i..<j}. flags ! k)
     \<and> (i = 0 \<or> \<not> flags ! (i - 1)) \<and> (j = length flags \<or> \<not> flags ! j)"

definition in_qualifying_run :: "bool list \<Rightarrow> int \<Rightarrow> nat \<Rightarrow> bool" where
  "in_qualifying_run flags min_length k \<longleftrightarrow>
     (\<exists>i \<in> {..k}. \<exists>j \<in> {k<..length flags}.
        maximal_run flags i j \<and> min_length \<le> int (j - i))"

definition days_in_qualifying_runs :: "bool list \<Rightarrow> int \<Rightarrow> nat" where
  "days_in_qualifying_runs flags min_length =
     length (filter (in_qualifying_run flags min_length) [0..<length flags])"


lemma maximal_run_unique:
  assumes "maximal_run a i j" "maximal_run a i' j'" "i \<le> k" "k < j" "i' \<le> k" "k < j'"
  shows "i = i' \<and> j = j'"
proof -
  have "\<not> i < i'"
  proof
    assume lt: "i < i'"
    then have "i' - 1 \<in> {i..<j}" using assms(3-6) by auto
    then have "a ! (i' - 1)" using assms(1) by (simp add: maximal_run_def)
    moreover have "i' \<noteq> 0" using lt by simp
    ultimately show False using assms(2) by (simp add: maximal_run_def)
  qed
  moreover have "\<not> i' < i"
  proof
    assume lt: "i' < i"
    then have "i - 1 \<in> {i'..<j'}" using assms(3-6) by auto
    then have "a ! (i - 1)" using assms(2) by (simp add: maximal_run_def)
    moreover have "i \<noteq> 0" using lt by simp
    ultimately show False using assms(1) by (simp add: maximal_run_def)
  qed
  moreover have "\<not> j < j'"
  proof
    assume lt: "j < j'"
    then have "j \<in> {i'..<j'}" using assms(3-6) by auto
    then have "a ! j" using assms(2) by (simp add: maximal_run_def)
    moreover have "j \<noteq> length a" using lt assms(2) by (simp add: maximal_run_def)
    ultimately show False using assms(1) by (simp add: maximal_run_def)
  qed
  moreover have "\<not> j' < j"
  proof
    assume lt: "j' < j"
    then have "j' \<in> {i..<j}" using assms(3-6) by auto
    then have "a ! j'" using assms(1) by (simp add: maximal_run_def)
    moreover have "j' \<noteq> length a" using lt assms(1) by (simp add: maximal_run_def)
    ultimately show False using assms(2) by (simp add: maximal_run_def)
  qed
  ultimately show ?thesis by linarith
qed

lemma in_qualifying_run_iff:
  assumes "maximal_run a i j" "i \<le> k" "k < j"
  shows "in_qualifying_run a m k \<longleftrightarrow> m \<le> int (j - i)"
proof
  assume "in_qualifying_run a m k"
  then obtain i' j' where r: "maximal_run a i' j'" "i' \<le> k" "k < j'" "m \<le> int (j' - i')"
    by (auto simp: in_qualifying_run_def)
  from maximal_run_unique [OF assms(1) r(1) assms(2,3) r(2,3)] r(4)
  show "m \<le> int (j - i)" by simp
next
  assume "m \<le> int (j - i)"
  moreover have "j \<le> length a" using assms(1) by (simp add: maximal_run_def)
  ultimately have "i \<in> {..k}" "j \<in> {k<..length a}" "maximal_run a i j \<and> m \<le> int (j - i)"
    using assms by auto
  then show "in_qualifying_run a m k"
    unfolding in_qualifying_run_def by blast
qed

lemma not_in_run_of_false:
  assumes "\<not> a ! k"
  shows "\<not> in_qualifying_run a m k"
  using assms unfolding in_qualifying_run_def maximal_run_def
  by (auto simp: Ball_def)

lemma count_days_loop_runs:
  assumes "i = 0 \<or> length arr \<le> i \<or> \<not> arr ! (i - 1) \<or> \<not> arr ! i"
  shows "count_days_loop arr m i tot =
         tot + length (filter (in_qualifying_run arr m) [i..<length arr])"
  using assms
proof (induction arr m i tot rule: count_days_loop.induct)
  case (1 arr m i tot)
  show ?case
  proof (cases "i < length arr")
    case False
    then show ?thesis by (subst count_days_loop.simps) simp
  next
    case inb: True
    show ?thesis
    proof (cases "arr ! i")
      case True
      define j where "j = scan_run arr i"
      have gt: "i < j" unfolding j_def using scan_run_gt inb True by simp
      have le: "j \<le> length arr" unfolding j_def using scan_run_le inb by simp
      have d: "drop i arr = replicate (j - i) True @ drop j arr"
        unfolding j_def using scan_run_drop [of i arr] inb by simp
      have all: "\<forall>k \<in> {i..<j}. arr ! k"
      proof
        fix k assume k: "k \<in> {i..<j}"
        then have "arr ! k = drop i arr ! (k - i)" using le by simp
        also have "\<dots> = True"
        proof -
          have "k - i < j - i" using k by auto
          then show ?thesis unfolding d by (simp add: nth_append)
        qed
        finally show "arr ! k" by simp
      qed
      have stop: "j = length arr \<or> \<not> arr ! j"
        using scan_run_stop [of arr i] le unfolding j_def by auto
      have start: "i = 0 \<or> \<not> arr ! (i - 1)"
        using "1.prems" inb True by auto
      have run: "maximal_run arr i j"
        unfolding maximal_run_def using gt le all stop start by simp
      have split: "[i..<length arr] = [i..<j] @ [j..<length arr]"
        using gt le by (metis less_imp_le_nat upt_add_eq_append le_Suc_ex)
      have inrun: "filter (in_qualifying_run arr m) [i..<j] =
          (if m \<le> int (j - i) then [i..<j] else [])"
      proof (cases "m \<le> int (j - i)")
        case True
        have "\<forall>k \<in> set [i..<j]. in_qualifying_run arr m k"
        proof
          fix k assume "k \<in> set [i..<j]"
          then have "i \<le> k" "k < j" by auto
          from in_qualifying_run_iff [OF run this] True
          show "in_qualifying_run arr m k" by blast
        qed
        then show ?thesis using True by (simp only: filter_True if_True)
      next
        case False
        have "\<forall>k \<in> set [i..<j]. \<not> in_qualifying_run arr m k"
        proof
          fix k assume "k \<in> set [i..<j]"
          then have "i \<le> k" "k < j" by auto
          from in_qualifying_run_iff [OF run this] False
          show "\<not> in_qualifying_run arr m k" by blast
        qed
        then show ?thesis using False by (simp only: filter_False if_False)
      qed
      have "count_days_loop arr m i tot =
          count_days_loop arr m j (if m \<le> int (j - i) then tot + (j - i) else tot)"
        using inb True by (subst count_days_loop.simps) (simp add: j_def Let_def)
      also have "\<dots> = (if m \<le> int (j - i) then tot + (j - i) else tot)
          + length (filter (in_qualifying_run arr m) [j..<length arr])"
        using "1.IH"(1) [OF inb True j_def refl] stop by auto
      finally show ?thesis unfolding split by (simp add: inrun)
    next
      case False
      have "count_days_loop arr m i tot = count_days_loop arr m (i + 1) tot"
        using inb False by (subst count_days_loop.simps) simp
      also have "\<dots> = tot + length (filter (in_qualifying_run arr m) [i + 1..<length arr])"
        using "1.IH"(2) [OF inb False] False by simp
      finally show ?thesis
        using inb not_in_run_of_false [OF False] by (simp add: upt_conv_Cons)
    qed
  qed
qed

lemma count_days_in_spells_runs:
  "count_days_in_spells flags m = days_in_qualifying_runs flags m"
  by (simp add: count_days_in_spells_def days_in_qualifying_runs_def count_days_loop_runs)

text \<open>The same total, read off run by run along the list: \<open>c\<close> is the length of
  the run that ends at the current position.\<close>

fun run_total :: "int \<Rightarrow> nat \<Rightarrow> bool list \<Rightarrow> nat" where
  "run_total m c [] = (if m \<le> int c then c else 0)"
| "run_total m c (True # xs) = run_total m (c + 1) xs"
| "run_total m c (False # xs) = (if m \<le> int c then c else 0) + run_total m 0 xs"

lemma run_total_trues: "run_total m c (replicate n True @ xs) = run_total m (c + n) xs"
  by (induction n arbitrary: c) auto

lemma run_total_falses: "run_total m 0 (replicate n False @ xs) = run_total m 0 xs"
  by (induction n) auto

lemma run_total_boundary:
  "xs = [] \<or> \<not> hd xs \<Longrightarrow>
   run_total m c xs = (if m \<le> int c then c else 0) + run_total m 0 xs"
  by (cases xs) auto

lemma count_days_loop_run_total:
  "i \<le> length arr \<Longrightarrow> count_days_loop arr m i tot = tot + run_total m 0 (drop i arr)"
proof (induction arr m i tot rule: count_days_loop.induct)
  case (1 arr m i tot)
  show ?case
  proof (cases "i < length arr")
    case False
    then show ?thesis by (subst count_days_loop.simps) simp
  next
    case inb: True
    show ?thesis
    proof (cases "arr ! i")
      case True
      define j where "j = scan_run arr i"
      have gt: "i < j" unfolding j_def using scan_run_gt inb True by simp
      have le: "j \<le> length arr" unfolding j_def using scan_run_le inb by simp
      have d: "drop i arr = replicate (j - i) True @ drop j arr"
        unfolding j_def using scan_run_drop [of i arr] inb by simp
      have "j = length arr \<or> \<not> arr ! j"
        using scan_run_stop [of arr i] le unfolding j_def by auto
      then have b: "drop j arr = [] \<or> \<not> hd (drop j arr)"
        using le by (auto simp: hd_drop_conv_nth)
      have "count_days_loop arr m i tot =
          count_days_loop arr m j (if m \<le> int (j - i) then tot + (j - i) else tot)"
        using inb True by (subst count_days_loop.simps) (simp add: j_def Let_def)
      also have "\<dots> = (if m \<le> int (j - i) then tot + (j - i) else tot)
          + run_total m 0 (drop j arr)"
        using "1.IH"(1) [OF inb True j_def refl] le by auto
      also have "\<dots> = tot + run_total m (j - i) (drop j arr)"
        using run_total_boundary [OF b, of m "j - i"] by simp
      finally show ?thesis unfolding d by (simp add: run_total_trues)
    next
      case False
      have d: "drop i arr = False # drop (i + 1) arr"
        using inb False by (metis Cons_nth_drop_Suc Suc_eq_plus1)
      have "count_days_loop arr m i tot = count_days_loop arr m (i + 1) tot"
        using inb False by (subst count_days_loop.simps) simp
      then show ?thesis
        using "1.IH"(2) [OF inb False] inb by (simp add: d)
    qed
  qed
qed

lemma count_days_in_spells_single_run:
  "count_days_in_spells (replicate a False @ replicate n True @ replicate b False) m =
     (if m \<le> int n then n else 0)"
proof -
  have "run_total m n (replicate b False) = (if m \<le> int n then n else 0)"
    by (cases b) (simp_all add: run_total_falses [of m _ "[]", simplified])
  then show ?thesis
    by (simp add: count_days_in_spells_def count_days_loop_run_total
        run_total_falses run_total_trues)
qed

subsection \<open>Percentile indices of one year\<close>

text \<open>
  \<^verbatim>\<open>calculate_wsdi\<close>, \<^verbatim>\<open>calculate_tx90p\<close> and \<^verbatim>\<open>calculate_tn90p\<close>.  Each row is
  flagged by \<^verbatim>\<open>row[col] > p90.get(int(row["day_of_year"]), np.nan)\<close>; the flags are
  booleans already, so \<^verbatim>\<open>fillna(False).astype(bool)\<close> leaves them as they are, and
  \<^verbatim>\<open>.sum()\<close> counts the true ones.
\<close>

definition calculate_wsdi :: "dataframe \<Rightarrow> (int \<rightharpoonup> pyfloat) \<Rightarrow> int \<Rightarrow> nat" where
  "calculate_wsdi year_df p90_tmax min_duration =
     (let flags = map (\<lambda>row. gt_f (temp_max row) (series_get p90_tmax (day_of_year row)))
                    year_df
      in count_days_in_spells flags min_duration)"



text \<open>A value strictly exceeds the calendar threshold of its day: both are defined
  and the value is the larger one.\<close>

definition exceeds_threshold :: "pyfloat \<Rightarrow> (int \<rightharpoonup> pyfloat) \<Rightarrow> int \<Rightarrow> bool" where
  "exceeds_threshold v thresholds d =
     (case v of None \<Rightarrow> False
      | Some x \<Rightarrow> (case thresholds d of Some (Some t) \<Rightarrow> t < x | _ \<Rightarrow> False))"

lemma gt_f_series_get: "gt_f v (series_get p d) = exceeds_threshold v p d"
  by (auto simp: gt_f_def series_get_def exceeds_threshold_def split: option.splits)




text \<open>
  Claim C4.  \<^verbatim>\<open>calculate_wsdi\<close> is the number of days that belong to a maximal run
  of at least \<open>min_duration\<close> consecutive days with \<open>temp_max\<close> strictly above the
  threshold of the day, a missing value or an undefined threshold counting as not
  above; with the default of 6, a year whose only run of such days has \<open>n\<close> days
  gets \<open>n\<close> when \<open>n\<close> is at least 6 and 0 otherwise (0 for 5, 6 for 6, 7 for 7).
\<close>

theorem wsdi_days_in_qualifying_runs:
  "calculate_wsdi year_df p90_tmax min_duration =
     days_in_qualifying_runs
       (map (\<lambda>row. exceeds_threshold (temp_max row) p90_tmax (day_of_year row)) year_df)
       min_duration
   \<and> (map (\<lambda>row. exceeds_threshold (temp_max row) p90_tmax (day_of_year row)) year_df
        = replicate a False @ replicate n True @ replicate b False \<longrightarrow>
      calculate_wsdi year_df p90_tmax WSDI_MIN_DURATION = (if 6 \<le> n then n else 0))"
proof (intro conjI impI)
  show "calculate_wsdi year_df p90_tmax min_duration =
     days_in_qualifying_runs
       (map (\<lambda>row. exceeds_threshold (temp_max row) p90_tmax (day_of_year row)) year_df)
       min_duration"
    by (simp add: calculate_wsdi_def gt_f_series_get count_days_in_spells_runs)
next
  assume "map (\<lambda>row. exceeds_threshold (temp_max row) p90_tmax (day_of_year row)) year_df
        = replicate a False @ replicate n True @ replicate b False"
  then show "calculate_wsdi year_df p90_tmax WSDI_MIN_DURATION = (if 6 \<le> n then n else 0)"
    by (simp add: calculate_wsdi_def gt_f_series_get count_days_in_spells_single_run
        WSDI_MIN_DURATION_def)
qed

theorem wsdi_days_in_qualifying_runs_witness:
  "calculate_wsdi
     (map (\<lambda>(d, t). \<lparr>year = 2000, day_of_year = d, temp_max = t, temp_min = None,
        temp_mean = None, precipitation = None\<rparr>)
       [(1, Some 20), (2, Some 30), (3, Some 30), (4, Some 30), (5, Some 30), (6, Some 30),
        (7, Some 30), (8, None)])
     (\<lambda>d. Some (Some 25)) WSDI_MIN_DURATION = 6
   \<and> calculate_wsdi
     (map (\<lambda>(d, t). \<lparr>year = 2000, day_of_year = d, temp_max = t, temp_min = None,
        temp_mean = None, precipitation = None\<rparr>)
       [(1, Some 20), (2, Some 30), (3, Some 30), (4, Some 30), (5, Some 30), (6, Some 30),
        (7, None)])
     (\<lambda>d. Some (Some 25)) WSDI_MIN_DURATION = 0
   \<and> days_in_qualifying_runs [False, True, True, True, True, True, True, True] 6 = 7"
proof -
  let ?mk = "\<lambda>(d, t). \<lparr>year = 2000, day_of_year = d, temp_max = t, temp_min = None,
        temp_mean = None, precipitation = None\<rparr>"
  let ?p = "\<lambda>d::int. Some (Some (25::real))"
  have six: "calculate_wsdi (map ?mk
       [(1, Some 20), (2, Some 30), (3, Some 30), (4, Some 30), (5, Some 30), (6, Some 30),
        (7, Some 30), (8, None)]) ?p WSDI_MIN_DURATION = 6"
    using wsdi_days_in_qualifying_runs [of "map ?mk
       [(1, Some 20), (2, Some 30), (3, Some 30), (4, Some 30), (5, Some 30), (6, Some 30),
        (7, Some 30), (8, None)]" ?p WSDI_MIN_DURATION 1 6 1]
    by (simp add: exceeds_threshold_def eval_nat_numeral)
  have five: "calculate_wsdi (map ?mk
       [(1, Some 20), (2, Some 30), (3, Some 30), (4, Some 30), (5, Some 30), (6, Some 30),
        (7, None)]) ?p WSDI_MIN_DURATION = 0"
    using wsdi_days_in_qualifying_runs [of "map ?mk
       [(1, Some 20), (2, Some 30), (3, Some 30), (4, Some 30), (5, Some 30), (6, Some 30),
        (7, None)]" ?p WSDI_MIN_DURATION 1 5 1]
    by (simp add: exceeds_threshold_def eval_nat_numeral)
  have seven: "days_in_qualifying_runs [False, True, True, True, True, True, True, True] 6 = 7"
    using wsdi_days_in_qualifying_runs [of "map ?mk
       [(1, Some 20), (2, Some 30), (3, Some 30), (4, Some 30), (5, Some 30), (6, Some 30),
        (7, Some 30), (8, Some 30)]" ?p WSDI_MIN_DURATION 1 7 0]
    by (simp add: exceeds_threshold_def eval_nat_numeral WSDI_MIN_DURATION_def)
  from six five seven show ?thesis by blast
qed

subsection \<open>Trend tests\<close>

text \<open>\<^verbatim>\<open>series.dropna().values\<close>: the values that are not NaN, in order.\<close>

definition dropna :: "pyfloat list \<Rightarrow> real list" where
  "dropna series = map the (filter (\<lambda>v. v \<noteq> None) series)"

text \<open>
  \<^verbatim>\<open>mann_kendall_trend(series)\<close>.  \<^verbatim>\<open>scipy.stats.kendalltau\<close> is a library function
  and enters as the parameter \<open>kendalltau\<close>, returning the coefficient and its
  p-value (either may be NaN).  The returned dictionary is the record \<open>mk_result\<close>.
\<close>

record mk_result =
  tau :: pyfloat
  p_value :: pyfloat
  trend_direction :: string

definition mann_kendall_trend ::
  "(real list \<Rightarrow> real list \<Rightarrow> pyfloat \<times> pyfloat) \<Rightarrow> pyfloat list \<Rightarrow> mk_result" where
  "mann_kendall_trend kendalltau series =
     (let x = dropna series;
          n = length x
      in if n < 3
         then \<lparr>tau = None, p_value = None, trend_direction = ''insufficient_data''\<rparr>
         else (let time_idx = map real [0..<n];
                   (tau_raw, p_raw) = kendalltau time_idx x;
                   direction = (if gt_f tau_raw (Some 0) then ''increasing''
                                else if lt_f tau_raw (Some 0) then ''decreasing''
                                else ''no_trend'')
               in \<lparr>tau = map_option (\<lambda>t. py_round t 4) tau_raw,
                   p_value = map_option (\<lambda>p. py_round p 4) p_raw,
                   trend_direction = direction\<rparr>))"

text \<open>
  \<^verbatim>\<open>linear_regression_trend(years, values)\<close>.  The two Series are columns of one
  frame (\<^verbatim>\<open>annual["year"]\<close> and \<^verbatim>\<open>annual[metric]\<close>), so they are given as the list of
  its (year, value) pairs; the mask \<^verbatim>\<open>values.notna()\<close> selects the pairs with a value.
  \<^verbatim>\<open>scipy.stats.linregress\<close> enters as the parameter \<open>linregress\<close>; it may raise.  The
  key \<^verbatim>\<open>p_value\<close> of the returned dictionary is the field \<open>lr_p_value\<close>.
\<close>

record linregress_result =
  res_slope :: pyfloat
  res_intercept :: pyfloat
  res_rvalue :: pyfloat
  res_pvalue :: pyfloat

record lr_result =
  slope :: pyfloat
  intercept :: pyfloat
  r_squared :: pyfloat
  lr_p_value :: pyfloat
  slope_per_decade :: pyfloat

definition linear_regression_trend ::
  "(real list \<Rightarrow> real list \<Rightarrow> error + linregress_result) \<Rightarrow> (int \<times> pyfloat) list
     \<Rightarrow> error + lr_result" where
  "linear_regression_trend linregress years_values =
     (let masked = filter (\<lambda>(y, v). v \<noteq> None) years_values;
          x = map (\<lambda>(y, v). real_of_int y) masked;
          y = map (\<lambda>(y, v). the v) masked
      in if length x < 3
         then Inr \<lparr>slope = None, intercept = None, r_squared = None, lr_p_value = None,
                 slope_per_decade = None\<rparr>
         else (case linregress x y of
                 Inl e \<Rightarrow> Inl e
               | Inr result \<Rightarrow>
                   Inr \<lparr>slope = map_option (\<lambda>s. py_round s 4) (res_slope result),
                        intercept = map_option (\<lambda>s. py_round s 4) (res_intercept result),
                        r_squared = map_option (\<lambda>r. py_round (r ^ 2) 4) (res_rvalue result),
                        lr_p_value = map_option (\<lambda>p. py_round p 4) (res_pvalue result),
                        slope_per_decade =
                          map_option (\<lambda>s. py_round (s * 10) 4) (res_slope result)\<rparr>))"

text \<open>
  Claim C6.  With fewer than 3 non-missing points, the empty series included,
  \<^verbatim>\<open>mann_kendall_trend\<close> returns the direction \<open>insufficient_data\<close> with NaN for the
  coefficient and the p-value, and \<^verbatim>\<open>linear_regression_trend\<close> returns NaN in every
  field; neither calls the library nor raises.  With 3 or more points the direction is
  \<open>increasing\<close> for a positive coefficient of the rank test, \<open>decreasing\<close> for a
  negative one and \<open>no_trend\<close> for zero (and for a NaN coefficient).
\<close>

theorem trend_insufficient_data:
  "(length (dropna series) < 3 \<longrightarrow>
      mann_kendall_trend kendalltau series =
        \<lparr>tau = None, p_value = None, trend_direction = ''insufficient_data''\<rparr>)
   \<and> (length (filter (\<lambda>(y, v). v \<noteq> None) years_values) < 3 \<longrightarrow>
      linear_regression_trend linregress years_values =
        Inr \<lparr>slope = None, intercept = None, r_squared = None, lr_p_value = None,
             slope_per_decade = None\<rparr>)
   \<and> (3 \<le> length (dropna series) \<longrightarrow>
      trend_direction (mann_kendall_trend kendalltau series) =
        (case fst (kendalltau (map real [0..<length (dropna series)]) (dropna series)) of
           None \<Rightarrow> ''no_trend''
         | Some t \<Rightarrow> if 0 < t then ''increasing''
                     else if t < 0 then ''decreasing'' else ''no_trend''))"
  by (auto simp: mann_kendall_trend_def linear_regression_trend_def Let_def gt_f_def lt_f_def
      split: prod.splits option.splits)

theorem trend_insufficient_data_witness:
  "mann_kendall_trend (\<lambda>x y. (Some 1, Some 0)) [] =
        \<lparr>tau = None, p_value = None, trend_direction = ''insufficient_data''\<rparr>
   \<and> mann_kendall_trend (\<lambda>x y. (Some 1, Some 0)) [Some 3, None, Some 4] =
        \<lparr>tau = None, p_value = None, trend_direction = ''insufficient_data''\<rparr>
   \<and> linear_regression_trend (\<lambda>x y. Inl ValueError) [] =
        Inr \<lparr>slope = None, intercept = None, r_squared = None, lr_p_value = None,
             slope_per_decade = None\<rparr>
   \<and> linear_regression_trend (\<lambda>x y. Inl ValueError) [(2000, Some 1), (2001, None), (2002, Some 2)] =
        Inr \<lparr>slope = None, intercept = None, r_squared = None, lr_p_value = None,
             slope_per_decade = None\<rparr>
   \<and> trend_direction (mann_kendall_trend (\<lambda>x y. (Some (- 1), Some 0)) [Some 3, Some 2, Some 1])
       = ''decreasing''"
  using trend_insufficient_data [of "[]" "\<lambda>x y. (Some 1, Some 0)" "[]" "\<lambda>x y. Inl ValueError"]
    trend_insufficient_data [of "[Some 3, None, Some 4]" "\<lambda>x y. (Some 1, Some 0)"
      "[(2000, Some 1), (2001, None), (2002, Some 2)]" "\<lambda>x y. Inl ValueError"]
    trend_insufficient_data [of "[Some 3, Some 2, Some 1]" "\<lambda>x y. (Some (- 1), Some 0)"
      "[]" "\<lambda>x y. Inl ValueError"]
  by (simp add: dropna_def)

subsection \<open>The annual table\<close>

text \<open>
  One row of the frame \<^verbatim>\<open>annual\<close> that \<^verbatim>\<open>main\<close> builds from its per-year records: the
  year and the columns listed in \<^verbatim>\<open>numeric_cols\<close>, each cell a float that may be NaN
  (the integer counts are whole numbers).  The columns \<^verbatim>\<open>first_hot_day\<close> and
  \<^verbatim>\<open>last_hot_day\<close> take no part in the anomaly or in the decadal means and are left
  out.
\<close>

datatype numeric_col =
    Su25 | Su30 | Tr20 | DtrMean | TempMaxMean | TempMinMean | TempMeanAnnual
  | PrecipTotal | PrecipDays | WsdiDays | Tx90p | Tn90p | Cdd | Cwd | Gdd | P95Days
  | HotSeasonLength | Anomaly





subsection \<open>Temperature anomaly\<close>








subsection \<open>Decadal aggregation\<close>










end
